theory Spec2Isabelle
  imports Complex_Main "HOL-Library.Multiset" "HOL-Library.Sublist"
begin

section \<open>JavaScript numbers\<close>

text \<open>
  A JavaScript \<open>number\<close> is an IEEE-754 binary64 value. The finite ones are carried by
  the rational they denote; negative zero is not told apart from zero (the two compare
  equal and are both falsy, and no price is negative, so the price path never produces or
  divides by a negative zero).
\<close>

datatype number = NaN | NInf | Fin rat | PInf

text \<open>The relational operator \<open>a < b\<close> on numbers: false as soon as one side is NaN.\<close>

fun num_lt :: "number \<Rightarrow> number \<Rightarrow> bool" where
  "num_lt NaN b = False"
| "num_lt a NaN = False"
| "num_lt NInf NInf = False"
| "num_lt NInf b = True"
| "num_lt (Fin x) NInf = False"
| "num_lt (Fin x) (Fin y) = (x < y)"
| "num_lt (Fin x) PInf = True"
| "num_lt PInf b = False"

section \<open>Data model (types.ts)\<close>

record Product =
  id_p :: string
  name :: string
  price :: number
  originalPrice :: number
  discount :: number
  url :: string
  image_p :: string
  sizes :: "string list"
  colors :: "string list"
  category :: string
  firstSeen :: string

record InventoryState =
  lastUpdated :: string
  products :: "Product list"

record PriceDrop =
  product :: Product
  previousPrice :: number

record InventoryChanges =
  newProducts :: "Product list"
  priceDrops :: "PriceDrop list"
  removedProducts :: "Product list"

record ScrapeResult =
  products_sr :: "Product list"
  scrapedAt :: string
  category_sr :: string

section \<open>Inventory comparison and merge\<close>

text \<open>
  \<open>new Map(entries)\<close> sets the entries in order, so a later entry with the same key
  replaces an earlier one. Only \<open>get\<close> and \<open>has\<close> are used on these maps.
\<close>

definition js_Map :: "('k \<times> 'v) list \<Rightarrow> ('k \<rightharpoonup> 'v)" where
  "js_Map entries = foldl (\<lambda>m (k, v). m(k \<mapsto> v)) Map.empty entries"

text \<open>\<open>scrapeResults.flatMap((r) => r.products)\<close>\<close>

definition currentProducts :: "ScrapeResult list \<Rightarrow> Product list" where
  "currentProducts scrapeResults = concat (map products_sr scrapeResults)"

text \<open>\<open>stored?.products || []\<close>\<close>

definition storedProducts :: "InventoryState option \<Rightarrow> Product list" where
  "storedProducts stored = (case stored of None \<Rightarrow> [] | Some s \<Rightarrow> products s)"

text \<open>\<open>new Map(storedProducts.map((p) => [p.id, p]))\<close>\<close>

definition storedMap :: "InventoryState option \<Rightarrow> (string \<rightharpoonup> Product)" where
  "storedMap stored = js_Map (map (\<lambda>p. (id_p p, p)) (storedProducts stored))"

text \<open>
  The first loop of \<open>compareInventory\<close>: it walks the current products and pushes onto
  \<open>newProducts\<close> or \<open>priceDrops\<close>.
\<close>

fun findNewAndDrops ::
  "(string \<rightharpoonup> Product) \<Rightarrow> Product list \<Rightarrow> Product list \<times> PriceDrop list
     \<Rightarrow> Product list \<times> PriceDrop list" where
  "findNewAndDrops sm [] (newPs, drops) = (newPs, drops)"
| "findNewAndDrops sm (p # rest) (newPs, drops) =
     (case sm (id_p p) of
        None \<Rightarrow> findNewAndDrops sm rest (newPs @ [p], drops)
      | Some existing \<Rightarrow>
          if num_lt (price p) (price existing)
          then findNewAndDrops sm rest
                 (newPs, drops @ [\<lparr>product = p, previousPrice = price existing\<rparr>])
          else findNewAndDrops sm rest (newPs, drops))"

text \<open>The second loop: stored products whose id the current map does not have.\<close>

fun findRemoved :: "(string \<rightharpoonup> Product) \<Rightarrow> Product list \<Rightarrow> Product list \<Rightarrow> Product list" where
  "findRemoved cm [] removed = removed"
| "findRemoved cm (p # rest) removed =
     (if cm (id_p p) = None then findRemoved cm rest (removed @ [p])
      else findRemoved cm rest removed)"

definition compareInventory :: "InventoryState option \<Rightarrow> ScrapeResult list \<Rightarrow> InventoryChanges" where
  "compareInventory stored scrapeResults =
     (let current = currentProducts scrapeResults;
          currentMap = js_Map (map (\<lambda>p. (id_p p, p)) current);
          (newPs, drops) = findNewAndDrops (storedMap stored) current ([], []);
          removed = findRemoved currentMap (storedProducts stored) []
      in \<lparr>newProducts = newPs, priceDrops = drops, removedProducts = removed\<rparr>)"

text \<open>
  \<open>existing?.firstSeen || product.firstSeen\<close>: the stored value when there is a stored
  product and its \<open>firstSeen\<close> is truthy (a non-empty string), the current one otherwise.
\<close>

definition mergedFirstSeen :: "(string \<rightharpoonup> Product) \<Rightarrow> Product \<Rightarrow> string" where
  "mergedFirstSeen sm p =
     (case sm (id_p p) of
        None \<Rightarrow> firstSeen p
      | Some existing \<Rightarrow> if firstSeen existing \<noteq> [] then firstSeen existing else firstSeen p)"

text \<open>\<open>now\<close> stands for \<open>new Date().toISOString()\<close> at the time of the merge.\<close>

definition mergeInventory :: "string \<Rightarrow> InventoryState option \<Rightarrow> ScrapeResult list \<Rightarrow> InventoryState" where
  "mergeInventory now stored scrapeResults =
     \<lparr>lastUpdated = now,
      products = map (\<lambda>p. p\<lparr>firstSeen := mergedFirstSeen (storedMap stored) p\<rparr>)
                     (currentProducts scrapeResults)\<rparr>"

definition hasChanges :: "InventoryChanges \<Rightarrow> bool" where
  "hasChanges changes \<longleftrightarrow> length (newProducts changes) > 0 \<or> length (priceDrops changes) > 0"

section \<open>Arithmetic on numbers\<close>

text \<open>
  \<open>pow2 k\<close> is \<open>2\<close> to the integer power \<open>k\<close>; \<open>bitLength n\<close> is the number of binary digits
  of \<open>n\<close>; \<open>ilog2 a\<close> is the binary exponent of a positive rational, the \<open>k\<close> with
  \<open>pow2 k \<le> a < pow2 (k + 1)\<close>.
\<close>

definition pow2 :: "int \<Rightarrow> rat" where
  "pow2 k = (if 0 \<le> k then 2 ^ nat k else 1 / 2 ^ nat (- k))"

function bitLength :: "nat \<Rightarrow> nat" where
  "bitLength n = (if n = 0 then 0 else Suc (bitLength (n div 2)))"
  by pat_completeness auto
termination
  by (relation "measure (\<lambda>n. n)") auto

declare bitLength.simps [simp del]

definition ilog2 :: "rat \<Rightarrow> int" where
  "ilog2 a = (if 1 \<le> a then int (bitLength (nat \<lfloor>a\<rfloor>)) - 1
              else - int (bitLength (nat (\<lceil>1 / a\<rceil> - 1))))"

text \<open>Rounding a non-negative rational to an integer, ties to the even neighbour.\<close>

definition roundHalfEven :: "rat \<Rightarrow> int" where
  "roundHalfEven x =
     (let f = \<lfloor>x\<rfloor>; d = x - of_int f
      in if d < 1 / 2 then f else if 1 / 2 < d then f + 1 else if even f then f else f + 1)"

text \<open>
  \<open>fl r\<close> is the binary64 value of the exact result \<open>r\<close> under round-to-nearest, ties to
  even: 53 significant bits, least exponent \<open>-1074\<close> (subnormals), and infinity once the
  rounded magnitude reaches \<open>2^1024\<close>.
\<close>

definition fl :: "rat \<Rightarrow> number" where
  "fl r =
     (if r = 0 then Fin 0
      else let a = \<bar>r\<bar>;
               e = max (ilog2 a - 52) (- 1074);
               m = roundHalfEven (a / pow2 e);
               v = of_int m * pow2 e
           in if pow2 1024 \<le> v then (if r < 0 then NInf else PInf)
              else Fin (if r < 0 then - v else v))"

text \<open>The operators \<open>a - b\<close>, \<open>a / b\<close> and \<open>a * b\<close> on numbers.\<close>

fun num_sub :: "number \<Rightarrow> number \<Rightarrow> number" where
  "num_sub (Fin x) (Fin y) = fl (x - y)"
| "num_sub NaN b = NaN"
| "num_sub a NaN = NaN"
| "num_sub PInf PInf = NaN"
| "num_sub NInf NInf = NaN"
| "num_sub PInf b = PInf"
| "num_sub NInf b = NInf"
| "num_sub (Fin x) PInf = NInf"
| "num_sub (Fin x) NInf = PInf"

fun num_div :: "number \<Rightarrow> number \<Rightarrow> number" where
  "num_div (Fin x) (Fin y) =
     (if y = 0 then (if x = 0 then NaN else if 0 < x then PInf else NInf) else fl (x / y))"
| "num_div NaN b = NaN"
| "num_div a NaN = NaN"
| "num_div (Fin x) PInf = Fin 0"
| "num_div (Fin x) NInf = Fin 0"
| "num_div PInf (Fin y) = (if y < 0 then NInf else PInf)"
| "num_div NInf (Fin y) = (if y < 0 then PInf else NInf)"
| "num_div PInf PInf = NaN"
| "num_div PInf NInf = NaN"
| "num_div NInf PInf = NaN"
| "num_div NInf NInf = NaN"

fun num_mul :: "number \<Rightarrow> number \<Rightarrow> number" where
  "num_mul (Fin x) (Fin y) = fl (x * y)"
| "num_mul NaN b = NaN"
| "num_mul a NaN = NaN"
| "num_mul (Fin x) PInf = (if x = 0 then NaN else if 0 < x then PInf else NInf)"
| "num_mul (Fin x) NInf = (if x = 0 then NaN else if 0 < x then NInf else PInf)"
| "num_mul PInf (Fin y) = (if y = 0 then NaN else if 0 < y then PInf else NInf)"
| "num_mul NInf (Fin y) = (if y = 0 then NaN else if 0 < y then NInf else PInf)"
| "num_mul PInf PInf = PInf"
| "num_mul NInf NInf = PInf"
| "num_mul PInf NInf = NInf"
| "num_mul NInf PInf = NInf"

text \<open>\<open>Math.round\<close>: the nearest integer, a tie going up.\<close>

fun math_round :: "number \<Rightarrow> number" where
  "math_round (Fin x) = Fin (of_int \<lfloor>x + 1 / 2\<rfloor>)"
| "math_round a = a"

text \<open>Truthiness of a number: everything but zero and NaN.\<close>

definition truthy :: "number \<Rightarrow> bool" where
  "truthy v \<longleftrightarrow> v \<noteq> NaN \<and> v \<noteq> Fin 0"

text \<open>\<open>xs[i] || d\<close>: an index past the end reads \<open>undefined\<close>, which is falsy.\<close>

definition indexOr :: "number list \<Rightarrow> nat \<Rightarrow> number \<Rightarrow> number" where
  "indexOr xs i d = (if i < length xs \<and> truthy (xs ! i) then xs ! i else d)"

section \<open>Size matcher (scraper.ts)\<close>

text \<open>\<open>s.replace(/[- ]/g, '')\<close>\<close>

definition removeHyphensSpaces :: "string \<Rightarrow> string" where
  "removeHyphensSpaces s = filter (\<lambda>c. c \<noteq> CHR ''-'' \<and> c \<noteq> CHR '' '') s"

text \<open>
  \<open>sizeMatches\<close>, with \<open>String.prototype.toUpperCase\<close> as the parameter \<open>toUpperCase\<close>: its
  case table is the language's, not the program's.
\<close>

definition sizeMatches :: "(string \<Rightarrow> string) \<Rightarrow> string \<Rightarrow> string \<Rightarrow> bool" where
  "sizeMatches toUpperCase sizeLabel flt =
     (let normalized = removeHyphensSpaces (toUpperCase sizeLabel);
          normalizedFilter = removeHyphensSpaces (toUpperCase flt)
      in if normalized = normalizedFilter then True
         else if prefix normalizedFilter normalized then True
         else False)"

text \<open>\<open>toUpperCase\<close> on strings of ASCII characters: the 26 lower-case letters change.\<close>

definition upperChar :: "char \<Rightarrow> char" where
  "upperChar c =
     (case map_of (zip ''abcdefghijklmnopqrstuvwxyz'' ''ABCDEFGHIJKLMNOPQRSTUVWXYZ'') c of
        None \<Rightarrow> c
      | Some u \<Rightarrow> u)"

definition toUpperCase_ascii :: "string \<Rightarrow> string" where
  "toUpperCase_ascii s = map upperChar s"

section \<open>Tile extraction (scraper.ts, extractProducts)\<close>

definition isDigit :: "char \<Rightarrow> bool" where
  "isDigit c \<longleftrightarrow> c \<in> set ''0123456789''"

definition isDigitOrComma :: "char \<Rightarrow> bool" where
  "isDigitOrComma c \<longleftrightarrow> isDigit c \<or> c = CHR '',''"

text \<open>
  One attempt of \<open>/\$[\d,]+(?:\.\d{2})?/\<close> at the start of a string: the match and the text
  after it. The class \<open>[\d,]+\<close> is greedy; the optional group is taken when a dot and two
  digits follow.
\<close>

definition matchPriceAt :: "string \<Rightarrow> (string \<times> string) option" where
  "matchPriceAt s =
     (case s of
        [] \<Rightarrow> None
      | c # cs \<Rightarrow>
          if c \<noteq> CHR ''$'' then None
          else let body = takeWhile isDigitOrComma cs; rest = dropWhile isDigitOrComma cs
               in if body = [] then None
                  else (case rest of
                          d # d1 # d2 # rest' \<Rightarrow>
                            if d = CHR ''.'' \<and> isDigit d1 \<and> isDigit d2
                            then Some (c # body @ [d, d1, d2], rest')
                            else Some (c # body, rest)
                        | _ \<Rightarrow> Some (c # body, rest)))"

text \<open>
  \<open>tileText.match(/.../g) || []\<close>: all matches from left to right, the search resuming
  after each match and one character further after a failed attempt.
\<close>

function priceMatches :: "string \<Rightarrow> string list" where
  "priceMatches s =
     (if s = [] then []
      else (case matchPriceAt s of
              None \<Rightarrow> priceMatches (tl s)
            | Some (m, rest) \<Rightarrow> m # priceMatches rest))"
  by pat_completeness auto
termination
proof (relation "measure length")
  show "wf (measure length)" by simp
next
  fix s :: string
  assume "s \<noteq> []"
  then show "(tl s, s) \<in> measure length" by (cases s) simp_all
next
  fix s :: string and x2 :: "string \<times> string" and m rest :: string
  assume "matchPriceAt s = Some x2" and "(m, rest) = x2"
  then have ms: "matchPriceAt s = Some (m, rest)" by simp
  then obtain c cs where s: "s = c # cs"
    by (cases s) (simp_all add: matchPriceAt_def)
  have le: "length (dropWhile isDigitOrComma cs) \<le> length cs"
    by (rule length_dropWhile_le)
  from ms have "rest = dropWhile isDigitOrComma cs
      \<or> (\<exists>d d1 d2. dropWhile isDigitOrComma cs = d # d1 # d2 # rest)"
    unfolding s matchPriceAt_def Let_def
    by (auto split: if_splits list.splits)
  with le have "length rest \<le> length cs" by auto
  then show "(rest, s) \<in> measure length" by (simp add: s)
qed

declare priceMatches.simps [simp del]

text \<open>\<open>p.replace(/[$,]/g, '')\<close>\<close>

definition removeDollarsCommas :: "string \<Rightarrow> string" where
  "removeDollarsCommas s = filter (\<lambda>c. c \<noteq> CHR ''$'' \<and> c \<noteq> CHR '','') s"

definition digitsValue :: "string \<Rightarrow> nat" where
  "digitsValue ds = foldl (\<lambda>n c. 10 * n + (of_char c - 48)) 0 ds"

text \<open>
  \<open>parseFloat\<close> on a string of digits and dots: the longest prefix of the form
  \<open>digits\<close>, \<open>digits.digits\<close>, \<open>digits.\<close> or \<open>.digits\<close> is read as a decimal numeral and
  rounded to a number; without any digit the result is NaN. Signs, white space, exponents
  and \<open>Infinity\<close> are not handled: the argument never holds them.
\<close>

definition parseFloat :: "string \<Rightarrow> number" where
  "parseFloat s =
     (let ip = takeWhile isDigit s;
          r = dropWhile isDigit s;
          fp = (case r of [] \<Rightarrow> [] | d # t \<Rightarrow> if d = CHR ''.'' then takeWhile isDigit t else [])
      in if ip = [] \<and> fp = [] then NaN
         else fl (of_nat (digitsValue ip) + of_nat (digitsValue fp) / 10 ^ length fp))"

text \<open>
  \<open>prices.sort((a, b) => b - a)\<close> as a stable insertion sort: \<open>x\<close> goes behind \<open>y\<close> when
  the comparator's value \<open>y - x\<close> is positive. With NaN in the array the comparator is
  inconsistent and the language leaves the order to the implementation.
\<close>

fun insertDesc :: "number \<Rightarrow> number list \<Rightarrow> number list" where
  "insertDesc x [] = [x]"
| "insertDesc x (y # ys) =
     (if num_lt (Fin 0) (num_sub y x) then y # insertDesc x ys else x # y # ys)"

definition sortDesc :: "number list \<Rightarrow> number list" where
  "sortDesc xs = foldr insertDesc xs []"

text \<open>\<open>priceMatches.map((p) => parseFloat(p.replace(/[$,]/g, ''))).sort((a, b) => b - a)\<close>\<close>

definition tilePrices :: "string \<Rightarrow> number list" where
  "tilePrices innerText =
     sortDesc (map (\<lambda>p. parseFloat (removeDollarsCommas p)) (priceMatches innerText))"

text \<open>The discount expression of the product literal.\<close>

definition discountOf :: "number \<Rightarrow> number \<Rightarrow> number" where
  "discountOf origPrice salePrice =
     (if num_lt salePrice origPrice
      then math_round (num_mul (num_div (num_sub origPrice salePrice) origPrice) (Fin 100))
      else Fin 0)"

text \<open>
  What the page gives for a tile that yields a product: the slug and the name the earlier
  steps of the callback found, the link's \<open>href\<close> and path, the tile's \<open>innerText\<close>, the
  image source, and the time of \<open>new Date().toISOString()\<close>.
\<close>

record TileData =
  slug :: string
  name_t :: string
  href :: string
  path :: string
  tileText :: string
  imageSrc :: string
  extractedAt :: string

definition tileProduct :: "string \<Rightarrow> string \<Rightarrow> TileData \<Rightarrow> Product" where
  "tileProduct baseUrl cat t =
     (let prices = tilePrices (tileText t);
          origPrice = indexOr prices 0 (Fin 0);
          salePrice = indexOr prices 1 (indexOr prices 0 (Fin 0))
      in \<lparr>id_p = slug t, name = name_t t, price = salePrice, originalPrice = origPrice,
          discount = discountOf origPrice salePrice,
          url = (if prefix ''http'' (href t) then href t else baseUrl @ href t),
          image_p = imageSrc t, sizes = [], colors = [], category = cat,
          firstSeen = extractedAt t\<rparr>)"

text \<open>
  The rest of \<open>extractProducts\<close>. \<open>getProductSizeData\<close> is a network call: its outcome for
  the \<open>i\<close>-th product and its path is the parameter \<open>sizeData\<close>, \<open>None\<close> for \<open>null\<close>.
  The loop sets \<open>sizes\<close> where size data came back and drops the \<open>path\<close> property.
\<close>

record SizeData =
  sizes_sd :: "string list"
  allSizes :: "string list"

fun withSizeData ::
  "(nat \<Rightarrow> string \<Rightarrow> SizeData option) \<Rightarrow> nat \<Rightarrow> (string \<times> Product) list \<Rightarrow> Product list" where
  "withSizeData sizeData i [] = []"
| "withSizeData sizeData i ((pth, p) # rest) =
     (case sizeData i pth of
        None \<Rightarrow> p
      | Some sd \<Rightarrow> p\<lparr>sizes := sizes_sd sd\<rparr>) # withSizeData sizeData (Suc i) rest"

text \<open>The callback of \<open>products.filter\<close> under a truthy \<open>sizeFilter\<close>.\<close>

definition keepForSize :: "(string \<Rightarrow> string) \<Rightarrow> string \<Rightarrow> Product \<Rightarrow> bool" where
  "keepForSize toUpperCase sizeFilter p =
     (if length (sizes p) = 0 then True
      else list_ex (\<lambda>s. sizeMatches toUpperCase s sizeFilter) (sizes p))"

text \<open>
  \<open>extractProducts\<close> from the point where \<open>page.evaluate\<close> has returned: \<open>buildId\<close> and
  \<open>tiles\<close> are what the page gave. An absent \<open>sizeFilter\<close> is \<open>None\<close>; the empty string
  is falsy like \<open>undefined\<close>.
\<close>

definition extractProducts ::
  "(string \<Rightarrow> string) \<Rightarrow> (nat \<Rightarrow> string \<Rightarrow> SizeData option) \<Rightarrow> string \<Rightarrow> TileData list
     \<Rightarrow> string \<Rightarrow> string \<Rightarrow> string option \<Rightarrow> Product list" where
  "extractProducts toUpperCase sizeData buildId tiles baseUrl cat sizeFilter =
     (let pageProducts = map (\<lambda>t. (path t, tileProduct baseUrl cat t)) tiles
      in if buildId = [] then map snd pageProducts
         else let products = withSizeData sizeData 0 pageProducts
              in (case sizeFilter of
                    None \<Rightarrow> products
                  | Some f \<Rightarrow>
                      if f = [] then products
                      else filter (keepForSize toUpperCase f) products))"

section \<open>Concrete inputs and observation helpers\<close>

text \<open>
  Products, scrape results and snapshots in the shape of the end-to-end scenario: only id,
  price and \<open>firstSeen\<close> vary.
\<close>

definition exampleProduct :: "string \<Rightarrow> number \<Rightarrow> string \<Rightarrow> Product" where
  "exampleProduct i pr fs =
     \<lparr>id_p = i, name = ''Alpha Pant Men's'', price = pr, originalPrice = Fin 200,
      discount = Fin 0, url = ''https://outlet.example/us/en/shop/mens/alpha-pant'',
      image_p = [], sizes = [], colors = [], category = ''mens-pants'', firstSeen = fs\<rparr>"

definition exampleResult :: "Product list \<Rightarrow> ScrapeResult" where
  "exampleResult ps = \<lparr>products_sr = ps, scrapedAt = ''t1'', category_sr = ''mens-pants''\<rparr>"

definition exampleState :: "Product list \<Rightarrow> InventoryState" where
  "exampleState ps = \<lparr>lastUpdated = ''t0'', products = ps\<rparr>"

text \<open>The four output collections of one run, read as sets.\<close>

definition outputSets ::
  "string \<Rightarrow> InventoryState option \<Rightarrow> ScrapeResult list
     \<Rightarrow> Product set \<times> PriceDrop set \<times> Product set \<times> Product set" where
  "outputSets now stored rs =
     (set (newProducts (compareInventory stored rs)),
      set (priceDrops (compareInventory stored rs)),
      set (removedProducts (compareInventory stored rs)),
      set (products (mergeInventory now stored rs)))"

text \<open>
  Values the price path can produce: infinity, or a non-negative finite value on the
  binary64 grid (an integer multiple of \<open>2^-1074\<close>).
\<close>

definition priceValue :: "number \<Rightarrow> bool" where
  "priceValue v =
     (case v of
        NaN \<Rightarrow> False
      | NInf \<Rightarrow> False
      | Fin r \<Rightarrow> 0 \<le> r \<and> r / pow2 (- 1074) \<in> \<int>
      | PInf \<Rightarrow> True)"

text \<open>A tile with the given \<open>innerText\<close>, and the size data of an in-stock label list.\<close>

definition exampleTile :: "string \<Rightarrow> string \<Rightarrow> TileData" where
  "exampleTile s tx =
     \<lparr>slug = s, name_t = ''Alpha Pant Men's'',
      href = ''https://outlet.example/us/en/shop/mens/alpha-pant'',
      path = ''/us/en/shop/mens/alpha-pant'', tileText = tx, imageSrc = [],
      extractedAt = ''t1''\<rparr>"

definition exampleSizes :: "string list \<Rightarrow> SizeData" where
  "exampleSizes ls = \<lparr>sizes_sd = ls, allSizes = ls\<rparr>"

definition exampleSizeData :: "nat \<Rightarrow> string \<Rightarrow> SizeData option" where
  "exampleSizeData i pth =
     (if i = 0 then Some (exampleSizes [''M-R''])
      else if i = 1 then Some (exampleSizes [''S-R'', ''L-R''])
      else None)"

text \<open>
  The discount in the words of the specification, read over exact rationals:
  \<open>round((originalPrice - price) / originalPrice * 100)\<close> when \<open>originalPrice > price\<close>, else
  \<open>0\<close>, where \<open>round\<close> is the nearest integer and a tie goes up, as in \<open>Math.round\<close>.
\<close>

definition discountFormula :: "rat \<Rightarrow> rat \<Rightarrow> int" where
  "discountFormula origPrice salePrice =
     (if salePrice < origPrice then round ((origPrice - salePrice) / origPrice * 100) else 0)"

section \<open>Properties of the inventory engine\<close>

subsection \<open>Maps built from entry lists\<close>

lemma foldl_map_upd:
  "foldl (\<lambda>m (k, v). m(k \<mapsto> v)) m0 es = m0 ++ map_of (rev es)"
proof (induction es arbitrary: m0)
  case Nil
  show ?case by simp
next
  case (Cons a es)
  obtain k v where a: "a = (k, v)" by (cases a)
  have "foldl (\<lambda>m (k, v). m(k \<mapsto> v)) m0 (a # es)
          = foldl (\<lambda>m (k, v). m(k \<mapsto> v)) (m0(k \<mapsto> v)) es"
    by (simp add: a)
  also have "\<dots> = m0(k \<mapsto> v) ++ map_of (rev es)"
    by (rule Cons.IH)
  also have "\<dots> = m0 ++ ([k \<mapsto> v] ++ map_of (rev es))"
    by (rule ext) (simp add: map_add_def split: option.splits)
  also have "\<dots> = m0 ++ map_of (rev (a # es))"
    by (simp add: a)
  finally show ?case .
qed

lemma js_Map_map_of: "js_Map es = map_of (rev es)"
  by (simp add: js_Map_def foldl_map_upd)

lemma js_Map_dom: "dom (js_Map (map (\<lambda>p. (f p, p)) ps)) = f ` set ps"
  by (simp add: js_Map_map_of dom_map_of_conv_image_fst rev_map[symmetric] image_image)

lemma js_Map_SomeD:
  "js_Map (map (\<lambda>p. (f p, p)) ps) k = Some e \<Longrightarrow> e \<in> set ps \<and> f e = k"
  by (auto simp: js_Map_map_of dest!: map_of_SomeD)

lemma js_Map_distinct:
  assumes "distinct (map f ps)" "e \<in> set ps"
  shows "js_Map (map (\<lambda>p. (f p, p)) ps) (f e) = Some e"
proof -
  have "distinct (map fst (rev (map (\<lambda>p. (f p, p)) ps)))"
    using assms(1) by (simp add: rev_map[symmetric] comp_def)
  moreover have "(f e, e) \<in> set (rev (map (\<lambda>p. (f p, p)) ps))"
    using assms(2) by auto
  ultimately show ?thesis
    unfolding js_Map_map_of by (rule map_of_is_SomeI)
qed

lemma js_Map_perm:
  assumes "distinct (map f ps)" "mset ps = mset qs"
  shows "js_Map (map (\<lambda>p. (f p, p)) ps) = js_Map (map (\<lambda>p. (f p, p)) qs)"
proof (rule ext)
  fix k
  have "mset (map f ps) = mset (map f qs)"
    using assms(2) by simp
  then have dq: "distinct (map f qs)"
    using assms(1) mset_eq_imp_distinct_iff by blast
  have sq: "set ps = set qs" using assms(2) by (rule mset_eq_setD)
  show "js_Map (map (\<lambda>p. (f p, p)) ps) k = js_Map (map (\<lambda>p. (f p, p)) qs) k"
  proof (cases "js_Map (map (\<lambda>p. (f p, p)) ps) k")
    case None
    then have "k \<notin> dom (js_Map (map (\<lambda>p. (f p, p)) ps))" by (simp add: domIff)
    then have "k \<notin> dom (js_Map (map (\<lambda>p. (f p, p)) qs))" using sq by (simp add: js_Map_dom)
    then have "js_Map (map (\<lambda>p. (f p, p)) qs) k = None" by (simp add: domIff)
    with None show ?thesis by simp
  next
    case (Some e)
    then have "e \<in> set ps" "f e = k" using js_Map_SomeD[of f ps k e] by auto
    then have "js_Map (map (\<lambda>p. (f p, p)) qs) k = Some e" using js_Map_distinct[OF dq, of e] sq by auto
    with Some show ?thesis by simp
  qed
qed

lemma findNewAndDrops_eq:
  "findNewAndDrops sm ps (ns, ds) =
     (ns @ filter (\<lambda>p. sm (id_p p) = None) ps,
      ds @ map (\<lambda>p. \<lparr>product = p, previousPrice = price (the (sm (id_p p)))\<rparr>)
             (filter (\<lambda>p. case sm (id_p p) of None \<Rightarrow> False
                          | Some e \<Rightarrow> num_lt (price p) (price e)) ps))"
  by (induction ps arbitrary: ns ds) (auto split: option.splits)

lemma findRemoved_eq:
  "findRemoved cm ps rs = rs @ filter (\<lambda>p. cm (id_p p) = None) ps"
  by (induction ps arbitrary: rs) auto

lemma storedMap_dom: "dom (storedMap stored) = id_p ` set (storedProducts stored)"
  by (simp add: storedMap_def js_Map_dom)

lemma storedMap_SomeD:
  "storedMap stored k = Some e \<Longrightarrow> e \<in> set (storedProducts stored) \<and> id_p e = k"
  unfolding storedMap_def by (rule js_Map_SomeD)

lemma storedMap_distinct:
  "distinct (map id_p (storedProducts stored)) \<Longrightarrow> e \<in> set (storedProducts stored)
     \<Longrightarrow> storedMap stored (id_p e) = Some e"
  unfolding storedMap_def by (rule js_Map_distinct)

lemma js_Map_None_iff:
  "js_Map (map (\<lambda>p. (f p, p)) ps) k = None \<longleftrightarrow> k \<notin> f ` set ps"
proof -
  have "js_Map (map (\<lambda>p. (f p, p)) ps) k = None \<longleftrightarrow> k \<notin> dom (js_Map (map (\<lambda>p. (f p, p)) ps))"
    by (simp only: domIff simp_thms)
  then show ?thesis by (simp only: js_Map_dom)
qed

lemma compareInventory_unfold:
  "compareInventory stored rs =
     \<lparr>newProducts = filter (\<lambda>p. storedMap stored (id_p p) = None) (currentProducts rs),
      priceDrops =
        map (\<lambda>p. \<lparr>product = p, previousPrice = price (the (storedMap stored (id_p p)))\<rparr>)
          (filter (\<lambda>p. case storedMap stored (id_p p) of None \<Rightarrow> False
                       | Some e \<Rightarrow> num_lt (price p) (price e)) (currentProducts rs)),
      removedProducts =
        filter (\<lambda>p. id_p p \<notin> id_p ` set (currentProducts rs)) (storedProducts stored)\<rparr>"
  unfolding compareInventory_def Let_def findNewAndDrops_eq findRemoved_eq js_Map_None_iff
  by simp

lemma newProducts_eq:
  "newProducts (compareInventory stored rs)
     = filter (\<lambda>p. storedMap stored (id_p p) = None) (currentProducts rs)"
  unfolding compareInventory_unfold by simp

lemma priceDrops_eq:
  "priceDrops (compareInventory stored rs)
     = map (\<lambda>p. \<lparr>product = p, previousPrice = price (the (storedMap stored (id_p p)))\<rparr>)
         (filter (\<lambda>p. case storedMap stored (id_p p) of None \<Rightarrow> False
                      | Some e \<Rightarrow> num_lt (price p) (price e)) (currentProducts rs))"
  unfolding compareInventory_unfold by simp

lemma removedProducts_eq:
  "removedProducts (compareInventory stored rs)
     = filter (\<lambda>p. id_p p \<notin> id_p ` set (currentProducts rs)) (storedProducts stored)"
  unfolding compareInventory_unfold by simp

lemma num_lt_irrefl: "\<not> num_lt a a"
  by (cases a) simp_all

subsection \<open>Merge: first-seen preservation and frame\<close>

text \<open>
  C1 (as amended). For a current product at position \<open>i\<close> whose id the stored mapping
  holds, with entry \<open>e\<close> (the last stored product with that id, the only one when stored
  ids are distinct), the merged product at position \<open>i\<close> has the \<open>firstSeen\<close> of
  \<open>e\<close> whenever that is a non-empty string, whatever the current \<open>firstSeen\<close> is; an
  empty stored \<open>firstSeen\<close> is falsy for \<open>||\<close> and the current value is kept.
\<close>

theorem mergeInventory_firstSeen:
  assumes "i < length (currentProducts rs)"
    and "storedMap stored (id_p (currentProducts rs ! i)) = Some e"
  shows "firstSeen (products (mergeInventory now stored rs) ! i)
           = (if firstSeen e = [] then firstSeen (currentProducts rs ! i) else firstSeen e)"
  using assms by (simp add: mergeInventory_def mergedFirstSeen_def)

text \<open>
  C1, witness: stored \<open>a\<close> first seen at \<open>t0\<close>, scraped again at \<open>t1\<close>; the merge
  keeps \<open>t0\<close>.
\<close>

theorem mergeInventory_firstSeen_witness:
  "0 < length (currentProducts [exampleResult [exampleProduct ''a'' (Fin 80) ''t1'']])
   \<and> storedMap (Some (exampleState [exampleProduct ''a'' (Fin 100) ''t0'']))
        (id_p (currentProducts [exampleResult [exampleProduct ''a'' (Fin 80) ''t1'']] ! 0))
        = Some (exampleProduct ''a'' (Fin 100) ''t0'')
   \<and> firstSeen (products (mergeInventory ''t2''
         (Some (exampleState [exampleProduct ''a'' (Fin 100) ''t0'']))
         [exampleResult [exampleProduct ''a'' (Fin 80) ''t1'']]) ! 0) = ''t0''"
proof -
  have h1: "0 < length (currentProducts [exampleResult [exampleProduct ''a'' (Fin 80) ''t1'']])"
    by (simp add: currentProducts_def exampleResult_def)
  have h2: "storedMap (Some (exampleState [exampleProduct ''a'' (Fin 100) ''t0'']))
        (id_p (currentProducts [exampleResult [exampleProduct ''a'' (Fin 80) ''t1'']] ! 0))
        = Some (exampleProduct ''a'' (Fin 100) ''t0'')"
    by (simp add: currentProducts_def exampleResult_def exampleState_def exampleProduct_def
        storedMap_def storedProducts_def js_Map_def)
  have "firstSeen (exampleProduct ''a'' (Fin 100) ''t0'') = ''t0''"
    by (simp add: exampleProduct_def)
  with mergeInventory_firstSeen[OF h1 h2, of "''t2''"] h1 h2 show ?thesis by simp
qed

text \<open>
  C1, counterexample to the claim as stated: the only stored product with id \<open>a\<close> has the
  empty string as \<open>firstSeen\<close>; the merged product carries the current \<open>t1\<close> instead.
\<close>

theorem mergeInventory_firstSeen_counterexample:
  "storedProducts (Some (exampleState [exampleProduct ''a'' (Fin 100) '''']))
     = [exampleProduct ''a'' (Fin 100) '''']
   \<and> currentProducts [exampleResult [exampleProduct ''a'' (Fin 80) ''t1'']]
     = [exampleProduct ''a'' (Fin 80) ''t1'']
   \<and> firstSeen (products (mergeInventory ''t2''
         (Some (exampleState [exampleProduct ''a'' (Fin 100) '''']))
         [exampleResult [exampleProduct ''a'' (Fin 80) ''t1'']]) ! 0)
     \<noteq> firstSeen (exampleProduct ''a'' (Fin 100) '''')"
  by (simp add: currentProducts_def exampleResult_def exampleState_def exampleProduct_def
      storedMap_def storedProducts_def js_Map_def mergeInventory_def mergedFirstSeen_def)

text \<open>
  C10. Position by position, each merged product agrees with the current product on every
  field other than \<open>firstSeen\<close>; nothing else of the stored snapshot enters the result.
\<close>

theorem mergeInventory_frame:
  "list_all2 (\<lambda>m c. id_p m = id_p c \<and> name m = name c \<and> price m = price c
                  \<and> originalPrice m = originalPrice c \<and> discount m = discount c
                  \<and> url m = url c \<and> image_p m = image_p c \<and> sizes m = sizes c
                  \<and> colors m = colors c \<and> category m = category c)
     (products (mergeInventory now stored rs)) (currentProducts rs)"
  by (simp add: mergeInventory_def list_all2_map1 list_all2_same)

subsection \<open>Diff\<close>

text \<open>
  C2 (as amended). Diffing a snapshot against its own product list reports no new and no
  removed product, and no price drop provided the ids of the snapshot are pairwise distinct.
\<close>

theorem compareInventory_self:
  assumes "currentProducts rs = products S"
  shows "newProducts (compareInventory (Some S) rs) = []
       \<and> removedProducts (compareInventory (Some S) rs) = []
       \<and> (distinct (map id_p (products S)) \<longrightarrow> priceDrops (compareInventory (Some S) rs) = [])"
proof (intro conjI impI)
  have sp: "storedProducts (Some S) = products S" by (simp add: storedProducts_def)
  have "\<And>p. p \<in> set (products S) \<Longrightarrow> storedMap (Some S) (id_p p) \<noteq> None"
    using storedMap_dom[of "Some S"] sp by (metis domIff imageI)
  then show "newProducts (compareInventory (Some S) rs) = []"
    by (simp add: newProducts_eq assms filter_empty_conv)
  show "removedProducts (compareInventory (Some S) rs) = []"
    by (simp add: removedProducts_eq assms sp filter_empty_conv)
  assume d: "distinct (map id_p (products S))"
  have "\<And>p. p \<in> set (products S) \<Longrightarrow> storedMap (Some S) (id_p p) = Some p"
    using storedMap_distinct[of "Some S"] d sp by simp
  then show "priceDrops (compareInventory (Some S) rs) = []"
    by (simp add: priceDrops_eq assms filter_empty_conv num_lt_irrefl)
qed

text \<open>
  C2, witness: a snapshot with the two distinct ids \<open>a\<close> and \<open>b\<close>.
\<close>

theorem compareInventory_self_witness:
  "currentProducts [exampleResult [exampleProduct ''a'' (Fin 100) ''t0'', exampleProduct ''b'' (Fin 50) ''t0'']]
     = products (exampleState [exampleProduct ''a'' (Fin 100) ''t0'', exampleProduct ''b'' (Fin 50) ''t0''])
   \<and> distinct (map id_p (products (exampleState
         [exampleProduct ''a'' (Fin 100) ''t0'', exampleProduct ''b'' (Fin 50) ''t0''])))
   \<and> compareInventory
        (Some (exampleState [exampleProduct ''a'' (Fin 100) ''t0'', exampleProduct ''b'' (Fin 50) ''t0'']))
        [exampleResult [exampleProduct ''a'' (Fin 100) ''t0'', exampleProduct ''b'' (Fin 50) ''t0'']]
     = \<lparr>newProducts = [], priceDrops = [], removedProducts = []\<rparr>"
proof -
  let ?ps = "[exampleProduct ''a'' (Fin 100) ''t0'', exampleProduct ''b'' (Fin 50) ''t0'']"
  have h: "currentProducts [exampleResult ?ps] = products (exampleState ?ps)"
    by (simp add: currentProducts_def exampleResult_def exampleState_def)
  have d: "distinct (map id_p (products (exampleState ?ps)))"
    by (simp add: exampleState_def exampleProduct_def)
  from compareInventory_self[OF h] d h show ?thesis
    by (cases "compareInventory (Some (exampleState ?ps)) [exampleResult ?ps]") simp
qed

text \<open>
  C2, counterexample to the claim as stated: the snapshot lists id \<open>a\<close> twice, at 80 and
  then at 100. The mapping keeps the later entry, so the earlier one is reported as a drop
  from 100.
\<close>

theorem compareInventory_self_counterexample:
  "currentProducts [exampleResult [exampleProduct ''a'' (Fin 80) ''t0'', exampleProduct ''a'' (Fin 100) ''t0'']]
     = products (exampleState [exampleProduct ''a'' (Fin 80) ''t0'', exampleProduct ''a'' (Fin 100) ''t0''])
   \<and> priceDrops (compareInventory
        (Some (exampleState [exampleProduct ''a'' (Fin 80) ''t0'', exampleProduct ''a'' (Fin 100) ''t0'']))
        [exampleResult [exampleProduct ''a'' (Fin 80) ''t0'', exampleProduct ''a'' (Fin 100) ''t0'']])
     = [\<lparr>product = exampleProduct ''a'' (Fin 80) ''t0'', previousPrice = Fin 100\<rparr>]"
  by (simp add: currentProducts_def exampleResult_def exampleState_def exampleProduct_def
      storedMap_def storedProducts_def js_Map_def compareInventory_def)

text \<open>
  C3. A current product whose id the stored mapping holds, with entry \<open>e\<close>, is reported in
  \<open>priceDrops\<close> exactly when its price is strictly below the price of \<open>e\<close> (no other field
  is looked at), and every entry reporting it carries the price of \<open>e\<close> as
  \<open>previousPrice\<close>.
\<close>

theorem compareInventory_priceDrops:
  assumes "p \<in> set (currentProducts rs)" and "storedMap stored (id_p p) = Some e"
  shows "((\<exists>d \<in> set (priceDrops (compareInventory stored rs)). product d = p)
            \<longleftrightarrow> num_lt (price p) (price e))
       \<and> (\<forall>d \<in> set (priceDrops (compareInventory stored rs)).
             product d = p \<longrightarrow> previousPrice d = price e)"
  using assms unfolding priceDrops_eq by (auto simp: image_iff)

text \<open>
  C3, witness: the end-to-end scenario, \<open>a\<close> stored at 100 and scraped at 80.
\<close>

theorem compareInventory_priceDrops_witness:
  "exampleProduct ''a'' (Fin 80) ''t1''
      \<in> set (currentProducts [exampleResult
               [exampleProduct ''a'' (Fin 80) ''t1'', exampleProduct ''b'' (Fin 50) ''t1'']])
   \<and> storedMap (Some (exampleState [exampleProduct ''a'' (Fin 100) ''t0'']))
        (id_p (exampleProduct ''a'' (Fin 80) ''t1'')) = Some (exampleProduct ''a'' (Fin 100) ''t0'')
   \<and> (\<exists>d \<in> set (priceDrops (compareInventory
            (Some (exampleState [exampleProduct ''a'' (Fin 100) ''t0'']))
            [exampleResult [exampleProduct ''a'' (Fin 80) ''t1'', exampleProduct ''b'' (Fin 50) ''t1'']])).
          product d = exampleProduct ''a'' (Fin 80) ''t1'')"
proof -
  let ?rs = "[exampleResult [exampleProduct ''a'' (Fin 80) ''t1'', exampleProduct ''b'' (Fin 50) ''t1'']]"
  let ?st = "Some (exampleState [exampleProduct ''a'' (Fin 100) ''t0''])"
  have h1: "exampleProduct ''a'' (Fin 80) ''t1'' \<in> set (currentProducts ?rs)"
    by (simp add: currentProducts_def exampleResult_def)
  have h2: "storedMap ?st (id_p (exampleProduct ''a'' (Fin 80) ''t1''))
              = Some (exampleProduct ''a'' (Fin 100) ''t0'')"
    by (simp add: exampleState_def exampleProduct_def storedMap_def storedProducts_def js_Map_def)
  have h3: "num_lt (price (exampleProduct ''a'' (Fin 80) ''t1''))
                   (price (exampleProduct ''a'' (Fin 100) ''t0''))"
    by (simp add: exampleProduct_def)
  from compareInventory_priceDrops[OF h1 h2] h1 h2 h3 show ?thesis by blast
qed

text \<open>
  C4 (as amended). Permuting the current product list leaves the four output sets unchanged;
  permuting the stored product list leaves them unchanged when the stored ids are pairwise
  distinct.
\<close>

theorem inventory_order_independent:
  shows "(mset (currentProducts rs) = mset (currentProducts rs')
            \<longrightarrow> outputSets now st rs = outputSets now st rs')
       \<and> (mset (storedProducts st) = mset (storedProducts st')
            \<and> distinct (map id_p (storedProducts st))
            \<longrightarrow> outputSets now st rs = outputSets now st' rs)"
proof (intro conjI impI)
  assume "mset (currentProducts rs) = mset (currentProducts rs')"
  then have "set (currentProducts rs) = set (currentProducts rs')"
    by (rule mset_eq_setD)
  then show "outputSets now st rs = outputSets now st rs'"
    by (simp add: outputSets_def compareInventory_unfold mergeInventory_def)
next
  assume h: "mset (storedProducts st) = mset (storedProducts st')
            \<and> distinct (map id_p (storedProducts st))"
  then have m: "storedMap st = storedMap st'"
    unfolding storedMap_def by (intro js_Map_perm) simp_all
  from h have "set (storedProducts st) = set (storedProducts st')"
    by (intro mset_eq_setD) simp
  with m show "outputSets now st rs = outputSets now st' rs"
    by (simp add: outputSets_def compareInventory_unfold mergeInventory_def)
qed

text \<open>
  C4, witness: both permutations on a stored snapshot with ids \<open>a\<close>, \<open>b\<close> and a current
  list with ids \<open>a\<close>, \<open>c\<close>.
\<close>

theorem inventory_order_independent_witness:
  "mset (currentProducts [exampleResult [exampleProduct ''a'' (Fin 80) ''t1'', exampleProduct ''c'' (Fin 50) ''t1'']])
     = mset (currentProducts [exampleResult [exampleProduct ''c'' (Fin 50) ''t1'', exampleProduct ''a'' (Fin 80) ''t1'']])
   \<and> mset (storedProducts (Some (exampleState [exampleProduct ''a'' (Fin 100) ''t0'', exampleProduct ''b'' (Fin 70) ''t0''])))
     = mset (storedProducts (Some (exampleState [exampleProduct ''b'' (Fin 70) ''t0'', exampleProduct ''a'' (Fin 100) ''t0''])))
   \<and> distinct (map id_p (storedProducts (Some (exampleState
         [exampleProduct ''a'' (Fin 100) ''t0'', exampleProduct ''b'' (Fin 70) ''t0'']))))
   \<and> outputSets ''t2''
        (Some (exampleState [exampleProduct ''a'' (Fin 100) ''t0'', exampleProduct ''b'' (Fin 70) ''t0'']))
        [exampleResult [exampleProduct ''a'' (Fin 80) ''t1'', exampleProduct ''c'' (Fin 50) ''t1'']]
     = outputSets ''t2''
        (Some (exampleState [exampleProduct ''a'' (Fin 100) ''t0'', exampleProduct ''b'' (Fin 70) ''t0'']))
        [exampleResult [exampleProduct ''c'' (Fin 50) ''t1'', exampleProduct ''a'' (Fin 80) ''t1'']]
   \<and> outputSets ''t2''
        (Some (exampleState [exampleProduct ''a'' (Fin 100) ''t0'', exampleProduct ''b'' (Fin 70) ''t0'']))
        [exampleResult [exampleProduct ''a'' (Fin 80) ''t1'', exampleProduct ''c'' (Fin 50) ''t1'']]
     = outputSets ''t2''
        (Some (exampleState [exampleProduct ''b'' (Fin 70) ''t0'', exampleProduct ''a'' (Fin 100) ''t0'']))
        [exampleResult [exampleProduct ''a'' (Fin 80) ''t1'', exampleProduct ''c'' (Fin 50) ''t1'']]"
proof -
  let ?a = "exampleProduct ''a'' (Fin 80) ''t1''" and ?c = "exampleProduct ''c'' (Fin 50) ''t1''"
  let ?sa = "exampleProduct ''a'' (Fin 100) ''t0''" and ?sb = "exampleProduct ''b'' (Fin 70) ''t0''"
  have h1: "mset (currentProducts [exampleResult [?a, ?c]]) = mset (currentProducts [exampleResult [?c, ?a]])"
    by (simp add: currentProducts_def exampleResult_def add_mset_commute)
  have h2: "mset (storedProducts (Some (exampleState [?sa, ?sb])))
          = mset (storedProducts (Some (exampleState [?sb, ?sa])))"
    by (simp add: storedProducts_def exampleState_def add_mset_commute)
  have h3: "distinct (map id_p (storedProducts (Some (exampleState [?sa, ?sb]))))"
    by (simp add: storedProducts_def exampleState_def exampleProduct_def)
  from inventory_order_independent[of "[exampleResult [?a, ?c]]" "[exampleResult [?c, ?a]]" "''t2''"
        "Some (exampleState [?sa, ?sb])" "Some (exampleState [?sb, ?sa])"] h1 h2 h3
  show ?thesis by blast
qed

text \<open>
  C4, counterexample to the claim as stated: the stored list holds id \<open>a\<close> at 100 and at
  50. In one order the mapping ends at 50 and a current price of 80 is no drop; in the other
  it ends at 100 and the same product is reported.
\<close>

theorem inventory_order_independent_counterexample:
  "mset (storedProducts (Some (exampleState [exampleProduct ''a'' (Fin 100) ''t0'', exampleProduct ''a'' (Fin 50) ''t0''])))
     = mset (storedProducts (Some (exampleState [exampleProduct ''a'' (Fin 50) ''t0'', exampleProduct ''a'' (Fin 100) ''t0''])))
   \<and> set (priceDrops (compareInventory
        (Some (exampleState [exampleProduct ''a'' (Fin 100) ''t0'', exampleProduct ''a'' (Fin 50) ''t0'']))
        [exampleResult [exampleProduct ''a'' (Fin 80) ''t1'']])) = {}
   \<and> set (priceDrops (compareInventory
        (Some (exampleState [exampleProduct ''a'' (Fin 50) ''t0'', exampleProduct ''a'' (Fin 100) ''t0'']))
        [exampleResult [exampleProduct ''a'' (Fin 80) ''t1'']]))
     = {\<lparr>product = exampleProduct ''a'' (Fin 80) ''t1'', previousPrice = Fin 100\<rparr>}"
  by (simp add: currentProducts_def exampleResult_def exampleState_def exampleProduct_def
      storedMap_def storedProducts_def js_Map_def compareInventory_def add_mset_commute)

subsection \<open>Significance\<close>

text \<open>
  C5. \<open>hasChanges\<close> holds exactly when \<open>newProducts\<close> or \<open>priceDrops\<close> is non-empty;
  removed products alone never make it true.
\<close>

theorem hasChanges_iff:
  "(hasChanges changes \<longleftrightarrow> newProducts changes \<noteq> [] \<or> priceDrops changes \<noteq> [])
   \<and> \<not> hasChanges \<lparr>newProducts = [], priceDrops = [], removedProducts = removed\<rparr>"
  by (simp add: hasChanges_def)

text \<open>
  C5, witness: one price drop is significant; a removal alone is not.
\<close>

theorem hasChanges_iff_witness:
  "hasChanges \<lparr>newProducts = [],
               priceDrops = [\<lparr>product = exampleProduct ''a'' (Fin 80) ''t1'', previousPrice = Fin 100\<rparr>],
               removedProducts = []\<rparr>
   \<and> \<not> hasChanges \<lparr>newProducts = [], priceDrops = [],
                     removedProducts = [exampleProduct ''b'' (Fin 50) ''t0'']\<rparr>"
  using hasChanges_iff[of "\<lparr>newProducts = [],
               priceDrops = [\<lparr>product = exampleProduct ''a'' (Fin 80) ''t1'', previousPrice = Fin 100\<rparr>],
               removedProducts = []\<rparr>" "[exampleProduct ''b'' (Fin 50) ''t0'']"]
  by simp

section \<open>Properties of the scraper\<close>

subsection \<open>Evaluation rules\<close>

text \<open>
  Rewrite rules that let the simplifier run the rounding and the price scan on numerals and
  string literals.
\<close>

lemma bitLength_0: "bitLength 0 = 0"
  by (simp add: bitLength.simps)

lemma bitLength_1: "bitLength 1 = 1" "bitLength (Suc 0) = 1"
  by (simp_all add: bitLength.simps[of 1] bitLength.simps[of 0] bitLength.simps[of "Suc 0"])

lemma bitLength_numeral:
  "bitLength (numeral Num.One) = 1"
  "bitLength (numeral (Num.Bit0 k)) = Suc (bitLength (numeral k))"
  "bitLength (numeral (Num.Bit1 k)) = Suc (bitLength (numeral k))"
proof -
  show "bitLength (numeral Num.One) = 1" using bitLength_1 by simp
  have "numeral (Num.Bit0 k) div (2::nat) = numeral k" by simp
  then show "bitLength (numeral (Num.Bit0 k)) = Suc (bitLength (numeral k))"
    by (subst bitLength.simps) simp
  have "numeral (Num.Bit1 k) div (2::nat) = numeral k" by simp
  then show "bitLength (numeral (Num.Bit1 k)) = Suc (bitLength (numeral k))"
    by (subst bitLength.simps) simp
qed

lemmas bitLength_eval = bitLength_0 bitLength_1 bitLength_numeral

lemma floor_rat_numeral_div: "\<lfloor>numeral a / numeral b :: rat\<rfloor> = numeral a div numeral b"
  using floor_divide_of_int_eq[of "numeral a" "numeral b", where ?'a = rat] by simp

lemma ceiling_rat_numeral_div:
  "\<lceil>numeral a / numeral b :: rat\<rceil> = - ((- numeral a) div numeral b)"
  using floor_divide_of_int_eq[of "- numeral a" "numeral b", where ?'a = rat]
  by (simp add: ceiling_def)

lemmas fl_eval = fl_def ilog2_def pow2_def roundHalfEven_def Let_def bitLength_eval
  floor_rat_numeral_div ceiling_rat_numeral_div

lemma priceMatches_Nil: "priceMatches [] = []"
  by (simp add: priceMatches.simps)

lemma priceMatches_Cons:
  "priceMatches (c # cs) =
     (case matchPriceAt (c # cs) of
        None \<Rightarrow> priceMatches cs
      | Some (m, rest) \<Rightarrow> m # priceMatches rest)"
  by (subst priceMatches.simps) (simp split: option.splits)

lemmas tile_eval = priceMatches_Nil priceMatches_Cons matchPriceAt_def isDigit_def
  isDigitOrComma_def removeDollarsCommas_def digitsValue_def parseFloat_def sortDesc_def
  tilePrices_def

subsection \<open>Rounding\<close>

text \<open>
  The rounded value of a non-negative rational is a price value; the rounded difference of
  two price values has the sign of the exact difference, so the comparator \<open>b - a\<close> orders
  them by value.
\<close>

lemma pow2_pos: "0 < pow2 k"
  by (simp add: pow2_def)

lemma pow2_add: "pow2 (j + k) = pow2 j * pow2 k"
proof -
  have "pow2 k = 2 powi k" for k
    by (simp add: pow2_def power_int_def inverse_eq_divide power_one_over)
  then show ?thesis by (simp add: power_int_add)
qed

lemma pow2_nat: "pow2 (int n) = 2 ^ n"
  by (simp add: pow2_def)

lemma bitLength_lower: "0 < n \<Longrightarrow> 2 ^ (bitLength n - 1) \<le> n"
proof (induction n rule: bitLength.induct)
  case (1 n)
  show ?case
  proof (cases "n div 2 = 0")
    case True
    with "1.prems" have "n = 1" by (simp add: div_eq_0_iff) 
    then show ?thesis by (simp add: bitLength_1)
  next
    case False
    then have pos: "0 < n div 2" by simp
    with "1.IH" "1.prems" have ih: "2 ^ (bitLength (n div 2) - 1) \<le> n div 2" by simp
    have bl: "bitLength n = Suc (bitLength (n div 2))"
      using "1.prems" by (subst bitLength.simps) simp
    have "0 < bitLength (n div 2)"
      using pos by (subst bitLength.simps) simp
    then have "(2::nat) ^ (bitLength n - 1) = 2 * 2 ^ (bitLength (n div 2) - 1)"
      unfolding bl by (cases "bitLength (n div 2)") simp_all
    also have "\<dots> \<le> 2 * (n div 2)" using ih by simp
    also have "\<dots> \<le> n" by simp
    finally show ?thesis .
  qed
qed

lemma bitLength_upper: "n < 2 ^ bitLength n"
proof (induction n rule: bitLength.induct)
  case (1 n)
  show ?case
  proof (cases "n = 0")
    case True
    then show ?thesis by simp
  next
    case False
    with "1.IH" have ih: "n div 2 < 2 ^ bitLength (n div 2)" by simp
    have bl: "bitLength n = Suc (bitLength (n div 2))"
      using False by (subst bitLength.simps) simp
    from ih have "n < 2 * 2 ^ bitLength (n div 2)" by linarith
    then show ?thesis unfolding bl by simp
  qed
qed



lemma ilog2_upper:
  assumes "0 < a"
  shows "a < pow2 (ilog2 a + 1)"
proof (cases "1 \<le> a")
  case True
  define n where "n = nat \<lfloor>a\<rfloor>"
  have n: "0 < n" using True by (simp add: n_def)
  then have b: "0 < bitLength n" by (subst bitLength.simps) simp
  have "ilog2 a + 1 = int (bitLength n)"
    using True b by (simp add: ilog2_def n_def)
  then have p: "pow2 (ilog2 a + 1) = 2 ^ bitLength n" by (simp only: pow2_nat)
  have "a < of_int (\<lfloor>a\<rfloor> + 1)" by linarith
  also have "\<lfloor>a\<rfloor> + 1 = int (Suc n)" using True by (simp add: n_def)
  also have "rat_of_int (int (Suc n)) = of_nat (Suc n)" by simp
  also have "\<dots> \<le> of_nat (2 ^ bitLength n)"
    using bitLength_upper[of n] by (simp only: of_nat_le_iff Suc_le_eq)
  finally show ?thesis unfolding p by simp
next
  case False
  define n where "n = nat (\<lceil>1 / a\<rceil> - 1)"
  define k where "k = bitLength n"
  have inv: "1 < 1 / a" using False assms by simp
  then have c: "2 \<le> \<lceil>1 / a\<rceil>" by linarith
  then have n: "0 < n" by (simp add: n_def)
  then have kpos: "0 < k" unfolding k_def by (subst bitLength.simps) simp
  have "rat_of_nat (2 ^ (k - 1)) \<le> of_nat n"
    using bitLength_lower[OF n] unfolding k_def by (simp only: of_nat_le_iff)
  also have "rat_of_nat n = of_int (\<lceil>1 / a\<rceil> - 1)"
  proof -
    have "0 \<le> \<lceil>1 / a\<rceil> - 1" using c by linarith
    then have "int n = \<lceil>1 / a\<rceil> - 1" unfolding n_def by (rule nat_0_le)
    then show ?thesis by (metis of_int_of_nat_eq)
  qed
  also have "\<dots> < 1 / a" by linarith
  finally have "2 ^ (k - 1) < 1 / a" by simp
  then have lt: "a < 1 / 2 ^ (k - 1)"
    using assms by (simp add: field_simps)
  have "ilog2 a + 1 = - int (k - 1)"
    using False kpos by (simp add: ilog2_def n_def k_def)
  then have "pow2 (ilog2 a + 1) = 1 / 2 ^ (k - 1)"
    by (cases "k - 1 = 0") (simp_all add: pow2_def)
  with lt show ?thesis by simp
qed

lemma roundHalfEven_ge_floor: "\<lfloor>x\<rfloor> \<le> roundHalfEven x"
  by (simp add: roundHalfEven_def Let_def)

lemma roundHalfEven_nonneg: "0 \<le> x \<Longrightarrow> 0 \<le> roundHalfEven x"
  using roundHalfEven_ge_floor[of x] by (simp add: order_trans[of 0 "\<lfloor>x\<rfloor>"])


lemma fl_zero: "fl 0 = Fin 0"
  by (simp add: fl_def)

lemma fl_shape:
  assumes "r \<noteq> 0"
  defines "e \<equiv> max (ilog2 \<bar>r\<bar> - 52) (- 1074)"
  defines "m \<equiv> roundHalfEven (\<bar>r\<bar> / pow2 e)"
  shows "fl r = (if pow2 1024 \<le> of_int m * pow2 e then (if r < 0 then NInf else PInf)
                 else Fin (if r < 0 then - (of_int m * pow2 e) else of_int m * pow2 e))"
  using assms(1) unfolding fl_def e_def m_def Let_def by simp

lemma grid_of_int_pow2:
  assumes "- 1074 \<le> e"
  shows "of_int m * pow2 e / pow2 (- 1074) \<in> \<int>"
proof -
  have "pow2 e = pow2 (e + 1074) * pow2 (- 1074)"
    using pow2_add[of "e + 1074" "- 1074"] by simp
  moreover have "pow2 (e + 1074) = 2 ^ nat (e + 1074)"
    using assms by (simp add: pow2_def)
  ultimately have "of_int m * pow2 e / pow2 (- 1074) = of_int (m * 2 ^ nat (e + 1074))"
    using pow2_pos[of "- 1074"] by simp
  then show ?thesis by (simp only: Ints_of_int)
qed

lemma fl_priceValue:
  assumes "0 \<le> r"
  shows "priceValue (fl r)"
proof (cases "r = 0")
  case True
  then show ?thesis by (simp add: fl_zero priceValue_def)
next
  case False
  define e where "e = max (ilog2 \<bar>r\<bar> - 52) (- 1074)"
  define m where "m = roundHalfEven (\<bar>r\<bar> / pow2 e)"
  have e: "- 1074 \<le> e" by (simp add: e_def)
  have m: "0 \<le> m"
    unfolding m_def using pow2_pos[of e] by (intro roundHalfEven_nonneg) simp
  have pos: "\<not> r < 0" using assms by simp
  have v: "0 \<le> of_int m * pow2 e"
    using m pow2_pos[of e] by simp
  show ?thesis
    using fl_shape[OF False] pos v grid_of_int_pow2[OF e, of m]
    unfolding e_def[symmetric] m_def[symmetric]
    by (simp add: priceValue_def)
qed






subsection \<open>Parsed prices and their order\<close>

lemma priceValue_not_neg: "priceValue v \<Longrightarrow> \<not> num_lt v (Fin 0)"
  by (cases v) (simp_all add: priceValue_def)

lemma parseFloat_cases: "parseFloat s = NaN \<or> priceValue (parseFloat s)"
  unfolding parseFloat_def Let_def by (simp add: fl_priceValue)


lemma mset_insertDesc: "mset (insertDesc x ys) = add_mset x (mset ys)"
  by (induction ys) auto

lemma mset_sortDesc: "mset (sortDesc xs) = mset xs"
  unfolding sortDesc_def by (induction xs) (simp_all add: mset_insertDesc)

lemma set_sortDesc: "set (sortDesc xs) = set xs"
  using mset_sortDesc[of xs] by (rule mset_eq_setD)





lemma tilePrices_values: "v \<in> set (tilePrices tx) \<Longrightarrow> v = NaN \<or> priceValue v"
  unfolding tilePrices_def set_sortDesc using parseFloat_cases by auto

lemma indexOr_values:
  assumes "\<forall>v \<in> set xs. \<not> num_lt v (Fin 0)" and "\<not> num_lt d (Fin 0)"
  shows "\<not> num_lt (indexOr xs i d) (Fin 0)"
  using assms by (simp add: indexOr_def)

lemma tilePrices_not_neg: "v \<in> set (tilePrices tx) \<Longrightarrow> \<not> num_lt v (Fin 0)"
  using tilePrices_values[of v tx] priceValue_not_neg[of v] by auto

lemma salePrice_not_neg:
  "\<not> num_lt (indexOr (tilePrices tx) 1 (indexOr (tilePrices tx) 0 (Fin 0))) (Fin 0)"
proof -
  have a: "\<forall>v \<in> set (tilePrices tx). \<not> num_lt v (Fin 0)"
    using tilePrices_not_neg by blast
  have "\<not> num_lt (indexOr (tilePrices tx) 0 (Fin 0)) (Fin 0)"
    using indexOr_values[OF a, of "Fin 0" 0] by simp
  then show ?thesis by (rule indexOr_values[OF a])
qed

lemma tileProduct_sizes: "sizes (tileProduct baseUrl cat t) = []"
  by (simp add: tileProduct_def Let_def)

lemma filter_on_sizes:
  "map id_p (filter (\<lambda>p. Q (sizes p)) ps)
     = map fst (filter (\<lambda>(i, s). Q s) (map (\<lambda>p. (id_p p, sizes p)) ps))"
  by (induction ps) simp_all

subsection \<open>Rounding of the discount\<close>

text \<open>
  \<open>Math.round\<close> returns the integer nearest to its argument, the upper one at a tie.
\<close>

lemma math_round_nearest:
  "\<exists>n::int. math_round (Fin x) = Fin (of_int n) \<and> x - 1 / 2 < of_int n \<and> of_int n \<le> x + 1 / 2"
proof (intro exI conjI)
  show "math_round (Fin x) = Fin (rat_of_int \<lfloor>x + 1 / 2\<rfloor>)" by simp
  have "x + 1 / 2 < rat_of_int \<lfloor>x + 1 / 2\<rfloor> + 1" by linarith
  then show "x - 1 / 2 < rat_of_int \<lfloor>x + 1 / 2\<rfloor>" by simp
  show "rat_of_int \<lfloor>x + 1 / 2\<rfloor> \<le> x + 1 / 2" by (rule of_int_floor_le)
qed

text \<open>
  The product of a tile whose text holds two non-zero prices.
\<close>

lemma tileProduct_two_prices:
  assumes "tilePrices tx = [a, b]" and "truthy a" and "truthy b"
  shows "originalPrice (tileProduct baseUrl cat (exampleTile s tx)) = a"
    and "price (tileProduct baseUrl cat (exampleTile s tx)) = b"
    and "discount (tileProduct baseUrl cat (exampleTile s tx)) = discountOf a b"
  using assms by (simp_all add: tileProduct_def Let_def exampleTile_def indexOr_def)

text \<open>
  Ties of the exact quotient go either way: 1 of 200 is 0.5 exactly and stays 0.5 in
  binary64, giving 1; 57 of 200 is 28.5 exactly but 28.499999999999996 in binary64,
  giving 28.
\<close>

lemma discount_tie_examples:
  "discountOf (Fin 200) (Fin 199) = Fin 1 \<and> discountOf (Fin 200) (Fin 143) = Fin 28"
  by (simp add: discountOf_def fl_eval)

subsection \<open>Size matcher and filter\<close>


text \<open>
  C9. Without a size filter, or with the empty string as filter, the output is the product
  list as extracted (with the size data when a build id was found). With a non-empty filter
  the output is that list restricted, in order, to the products whose \<open>sizes\<close> is empty or
  holds a label the filter matches; this covers the early return without build id, where
  every product has empty \<open>sizes\<close>.
\<close>

theorem extractProducts_filter:
  "extractProducts toUpperCase sizeData buildId tiles baseUrl cat None
     = (if buildId = [] then map (tileProduct baseUrl cat) tiles
        else withSizeData sizeData 0 (map (\<lambda>t. (path t, tileProduct baseUrl cat t)) tiles))
   \<and> extractProducts toUpperCase sizeData buildId tiles baseUrl cat (Some [])
     = extractProducts toUpperCase sizeData buildId tiles baseUrl cat None
   \<and> (f \<noteq> [] \<longrightarrow>
        extractProducts toUpperCase sizeData buildId tiles baseUrl cat (Some f)
          = filter (\<lambda>p. sizes p = [] \<or> (\<exists>s \<in> set (sizes p). sizeMatches toUpperCase s f))
              (extractProducts toUpperCase sizeData buildId tiles baseUrl cat None))"
proof (intro conjI impI)
  show "extractProducts toUpperCase sizeData buildId tiles baseUrl cat None
     = (if buildId = [] then map (tileProduct baseUrl cat) tiles
        else withSizeData sizeData 0 (map (\<lambda>t. (path t, tileProduct baseUrl cat t)) tiles))"
    by (simp add: extractProducts_def Let_def comp_def)
  show "extractProducts toUpperCase sizeData buildId tiles baseUrl cat (Some [])
     = extractProducts toUpperCase sizeData buildId tiles baseUrl cat None"
    by (simp add: extractProducts_def Let_def)
  assume f: "f \<noteq> []"
  have keep: "keepForSize toUpperCase f
                = (\<lambda>p. sizes p = [] \<or> (\<exists>s \<in> set (sizes p). sizeMatches toUpperCase s f))"
    by (rule ext) (simp add: keepForSize_def list_ex_iff)
  show "extractProducts toUpperCase sizeData buildId tiles baseUrl cat (Some f)
          = filter (\<lambda>p. sizes p = [] \<or> (\<exists>s \<in> set (sizes p). sizeMatches toUpperCase s f))
              (extractProducts toUpperCase sizeData buildId tiles baseUrl cat None)"
  proof (cases "buildId = []")
    case True
    have "filter (\<lambda>p. sizes p = [] \<or> (\<exists>s \<in> set (sizes p). sizeMatches toUpperCase s f))
            (map (tileProduct baseUrl cat) tiles) = map (tileProduct baseUrl cat) tiles"
      by (simp add: filter_id_conv tileProduct_sizes)
    with True show ?thesis by (simp add: extractProducts_def Let_def comp_def)
  next
    case False
    with f show ?thesis by (simp add: extractProducts_def Let_def keep)
  qed
qed

text \<open>
  C9, witness: three tiles; the size data gives \<open>M-R\<close> for the first, \<open>S-R\<close> and \<open>L-R\<close> for
  the second and fails for the third. The filter \<open>L\<close> drops the first only.
\<close>

theorem extractProducts_filter_witness:
  "''L'' \<noteq> []
   \<and> map id_p (extractProducts toUpperCase_ascii exampleSizeData ''build1''
        [exampleTile ''a'' ''A Men's $100.00'', exampleTile ''b'' ''B Men's $100.00'',
         exampleTile ''c'' ''C Men's $100.00'']
        ''https://outlet.example'' ''mens-pants'' None) = [''a'', ''b'', ''c'']
   \<and> map id_p (extractProducts toUpperCase_ascii exampleSizeData ''build1''
        [exampleTile ''a'' ''A Men's $100.00'', exampleTile ''b'' ''B Men's $100.00'',
         exampleTile ''c'' ''C Men's $100.00'']
        ''https://outlet.example'' ''mens-pants'' (Some ''L'')) = [''b'', ''c'']"
proof -
  let ?tiles = "[exampleTile ''a'' ''A Men's $100.00'', exampleTile ''b'' ''B Men's $100.00'',
         exampleTile ''c'' ''C Men's $100.00'']"
  let ?all = "extractProducts toUpperCase_ascii exampleSizeData ''build1''
        ?tiles ''https://outlet.example'' ''mens-pants'' None"
  have h: "''L'' \<noteq> []" by simp
  have u: "map (\<lambda>p. (id_p p, sizes p)) ?all
      = [(''a'', [''M-R'']), (''b'', [''S-R'', ''L-R'']), (''c'', [])]"
    by (simp add: extractProducts_def Let_def exampleSizeData_def exampleSizes_def
        exampleTile_def tileProduct_def)
  have m: "\<not> sizeMatches toUpperCase_ascii ''M-R'' ''L''"
     "\<not> sizeMatches toUpperCase_ascii ''S-R'' ''L''"
     "sizeMatches toUpperCase_ascii ''L-R'' ''L''"
    by (simp_all add: sizeMatches_def Let_def removeHyphensSpaces_def toUpperCase_ascii_def
        upperChar_def)
  have "map id_p ?all = map fst (map (\<lambda>p. (id_p p, sizes p)) ?all)"
    by (simp add: comp_def)
  then have ids: "map id_p ?all = [''a'', ''b'', ''c'']"
    unfolding u by simp
  from extractProducts_filter[of toUpperCase_ascii exampleSizeData "''build1''" ?tiles
      "''https://outlet.example''" "''mens-pants''" "''L''"] h
  have "extractProducts toUpperCase_ascii exampleSizeData ''build1''
        ?tiles ''https://outlet.example'' ''mens-pants'' (Some ''L'')
      = filter (\<lambda>p. sizes p = [] \<or> (\<exists>s \<in> set (sizes p). sizeMatches toUpperCase_ascii s ''L''))
          ?all"
    by blast
  then have "map id_p (extractProducts toUpperCase_ascii exampleSizeData ''build1''
        ?tiles ''https://outlet.example'' ''mens-pants'' (Some ''L''))
      = map fst (filter (\<lambda>(i, s). s = [] \<or> (\<exists>x \<in> set s. sizeMatches toUpperCase_ascii x ''L''))
          (map (\<lambda>p. (id_p p, sizes p)) ?all))"
    by (simp only: filter_on_sizes[where Q = "\<lambda>s. s = [] \<or> (\<exists>x \<in> set s. sizeMatches toUpperCase_ascii x ''L'')"])
  then have "map id_p (extractProducts toUpperCase_ascii exampleSizeData ''build1''
        ?tiles ''https://outlet.example'' ''mens-pants'' (Some ''L'')) = [''b'', ''c'']"
    unfolding u using m by simp
  with h ids show ?thesis by simp
qed

subsection \<open>Prices and discount of a tile\<close>

text \<open>
  C7 (as amended). The discount of an extracted tile is \<open>Math.round(((originalPrice -
  price) / originalPrice) * 100)\<close> evaluated on binary64 numbers when \<open>originalPrice >
  price\<close>, and 0 otherwise: when that product is a finite value \<open>x\<close>, the discount is the
  integer nearest to \<open>x\<close>, the upper one at a tie. It is 0 whenever \<open>originalPrice\<close> is 0
  (the quotient is then not computed) and whenever the two prices are equal. Tiles showing
  80.00 and 100.00, 1.00 and 3.00, 2.00 and 3.00, 143.00 and 200.00 have the discounts 20,
  67, 33 and 28.
\<close>

theorem tile_discount:
  "(let p = tileProduct baseUrl cat t;
        q = num_mul (num_div (num_sub (originalPrice p) (price p)) (originalPrice p)) (Fin 100)
    in discount p = (if num_lt (price p) (originalPrice p) then math_round q else Fin 0)
       \<and> (\<forall>x. num_lt (price p) (originalPrice p) \<and> q = Fin x \<longrightarrow>
              (\<exists>n::int. discount p = Fin (of_int n) \<and> x - 1 / 2 < of_int n \<and> of_int n \<le> x + 1 / 2))
       \<and> (originalPrice p = Fin 0 \<longrightarrow> discount p = Fin 0)
       \<and> (price p = originalPrice p \<longrightarrow> discount p = Fin 0))
   \<and> (let p = tileProduct baseUrl cat (exampleTile s ''Alpha Pant Men's $80.00 $100.00'')
      in price p = Fin 80 \<and> originalPrice p = Fin 100 \<and> discount p = Fin 20)
   \<and> (let p = tileProduct baseUrl cat (exampleTile s ''Alpha Pant Men's $1.00 $3.00'')
      in price p = Fin 1 \<and> originalPrice p = Fin 3 \<and> discount p = Fin 67)
   \<and> (let p = tileProduct baseUrl cat (exampleTile s ''Alpha Pant Men's $2.00 $3.00'')
      in price p = Fin 2 \<and> originalPrice p = Fin 3 \<and> discount p = Fin 33)
   \<and> (let p = tileProduct baseUrl cat (exampleTile s ''Alpha Pant Men's $143.00 $200.00'')
      in price p = Fin 143 \<and> originalPrice p = Fin 200 \<and> discount p = Fin 28)"
proof -
  define prices where "prices = tilePrices (tileText t)"
  define orig where "orig = indexOr prices 0 (Fin 0)"
  define sale where "sale = indexOr prices 1 (indexOr prices 0 (Fin 0))"
  define q where "q = num_mul (num_div (num_sub orig sale) orig) (Fin 100)"
  have p: "price (tileProduct baseUrl cat t) = sale"
      "originalPrice (tileProduct baseUrl cat t) = orig"
      "discount (tileProduct baseUrl cat t) = discountOf orig sale"
    by (simp_all add: tileProduct_def Let_def prices_def orig_def sale_def)
  have nn: "\<not> num_lt sale (Fin 0)"
    unfolding sale_def prices_def by (rule salePrice_not_neg)
  have 1: "discountOf orig sale = (if num_lt sale orig then math_round q else Fin 0)"
    by (simp add: discountOf_def q_def)
  have 2: "\<forall>x. num_lt sale orig \<and> q = Fin x \<longrightarrow>
              (\<exists>n::int. discountOf orig sale = Fin (of_int n)
                 \<and> x - 1 / 2 < of_int n \<and> of_int n \<le> x + 1 / 2)"
  proof (intro allI impI)
    fix x assume h: "num_lt sale orig \<and> q = Fin x"
    then have "discountOf orig sale = math_round (Fin x)" using 1 by simp
    then show "\<exists>n::int. discountOf orig sale = Fin (of_int n)
                 \<and> x - 1 / 2 < of_int n \<and> of_int n \<le> x + 1 / 2"
      using math_round_nearest[of x] by simp
  qed
  have 3: "orig = Fin 0 \<longrightarrow> discountOf orig sale = Fin 0"
    using nn by (simp add: discountOf_def)
  have 4: "sale = orig \<longrightarrow> discountOf orig sale = Fin 0"
    by (simp add: discountOf_def num_lt_irrefl)
  have general: "(let p = tileProduct baseUrl cat t;
        q = num_mul (num_div (num_sub (originalPrice p) (price p)) (originalPrice p)) (Fin 100)
    in discount p = (if num_lt (price p) (originalPrice p) then math_round q else Fin 0)
       \<and> (\<forall>x. num_lt (price p) (originalPrice p) \<and> q = Fin x \<longrightarrow>
              (\<exists>n::int. discount p = Fin (of_int n) \<and> x - 1 / 2 < of_int n \<and> of_int n \<le> x + 1 / 2))
       \<and> (originalPrice p = Fin 0 \<longrightarrow> discount p = Fin 0)
       \<and> (price p = originalPrice p \<longrightarrow> discount p = Fin 0))"
    unfolding Let_def p q_def[symmetric] using 1 2 3 4 by (intro conjI)
  have e1: "tilePrices ''Alpha Pant Men's $80.00 $100.00'' = [Fin 100, Fin 80]"
    by (simp add: tile_eval fl_eval)
  have d1: "discountOf (Fin 100) (Fin 80) = Fin 20"
    by (simp add: discountOf_def fl_eval)
  have e2: "tilePrices ''Alpha Pant Men's $1.00 $3.00'' = [Fin 3, Fin 1]"
    by (simp add: tile_eval fl_eval)
  have d2: "discountOf (Fin 3) (Fin 1) = Fin 67"
    by (simp add: discountOf_def fl_eval)
  have e3: "tilePrices ''Alpha Pant Men's $2.00 $3.00'' = [Fin 3, Fin 2]"
    by (simp add: tile_eval fl_eval)
  have d3: "discountOf (Fin 3) (Fin 2) = Fin 33"
    by (simp add: discountOf_def fl_eval)
  have e4: "tilePrices ''Alpha Pant Men's $143.00 $200.00'' = [Fin 200, Fin 143]"
    by (simp add: tile_eval fl_eval)
  have d4: "discountOf (Fin 200) (Fin 143) = Fin 28"
    by (simp add: discountOf_def fl_eval)
  have i1: "(let p = tileProduct baseUrl cat (exampleTile s ''Alpha Pant Men's $80.00 $100.00'')
      in price p = Fin 80 \<and> originalPrice p = Fin 100 \<and> discount p = Fin 20)"
    unfolding Let_def using tileProduct_two_prices[OF e1, of baseUrl cat s] d1
    by (simp add: truthy_def)
  have i2: "(let p = tileProduct baseUrl cat (exampleTile s ''Alpha Pant Men's $1.00 $3.00'')
      in price p = Fin 1 \<and> originalPrice p = Fin 3 \<and> discount p = Fin 67)"
    unfolding Let_def using tileProduct_two_prices[OF e2, of baseUrl cat s] d2
    by (simp add: truthy_def)
  have i3: "(let p = tileProduct baseUrl cat (exampleTile s ''Alpha Pant Men's $2.00 $3.00'')
      in price p = Fin 2 \<and> originalPrice p = Fin 3 \<and> discount p = Fin 33)"
    unfolding Let_def using tileProduct_two_prices[OF e3, of baseUrl cat s] d3
    by (simp add: truthy_def)
  have i4: "(let p = tileProduct baseUrl cat (exampleTile s ''Alpha Pant Men's $143.00 $200.00'')
      in price p = Fin 143 \<and> originalPrice p = Fin 200 \<and> discount p = Fin 28)"
    unfolding Let_def using tileProduct_two_prices[OF e4, of baseUrl cat s] d4
    by (simp add: truthy_def)
  from general i1 i2 i3 i4 show ?thesis by (intro conjI)
qed

text \<open>
  C7, witness: a tile without any price has original price 0 and discount 0; a tile with
  the single price 100.00 has equal prices and discount 0; for a tile showing 1.00 and 3.00
  the binary64 product is 66.66666666666666 and the discount is the nearest integer 67.
\<close>

theorem tile_discount_witness:
  "originalPrice (tileProduct ''https://outlet.example'' ''mens-pants''
      (exampleTile ''alpha-pant'' ''Alpha Pant Men's Compare'')) = Fin 0
   \<and> discount (tileProduct ''https://outlet.example'' ''mens-pants''
      (exampleTile ''alpha-pant'' ''Alpha Pant Men's Compare'')) = Fin 0
   \<and> price (tileProduct ''https://outlet.example'' ''mens-pants''
      (exampleTile ''beta-jacket'' ''Beta Jacket Men's $100.00'')) = Fin 100
   \<and> originalPrice (tileProduct ''https://outlet.example'' ''mens-pants''
      (exampleTile ''beta-jacket'' ''Beta Jacket Men's $100.00'')) = Fin 100
   \<and> discount (tileProduct ''https://outlet.example'' ''mens-pants''
      (exampleTile ''beta-jacket'' ''Beta Jacket Men's $100.00'')) = Fin 0
   \<and> num_lt (price (tileProduct ''https://outlet.example'' ''mens-pants''
         (exampleTile ''gamma-pant'' ''Gamma Pant Men's $1.00 $3.00'')))
       (originalPrice (tileProduct ''https://outlet.example'' ''mens-pants''
         (exampleTile ''gamma-pant'' ''Gamma Pant Men's $1.00 $3.00'')))
   \<and> num_mul (num_div (num_sub (Fin 3) (Fin 1)) (Fin 3)) (Fin 100)
       = Fin (2345624805922133 / 35184372088832)
   \<and> discount (tileProduct ''https://outlet.example'' ''mens-pants''
      (exampleTile ''gamma-pant'' ''Gamma Pant Men's $1.00 $3.00'')) = Fin 67"
proof -
  let ?A = "tileProduct ''https://outlet.example'' ''mens-pants''
      (exampleTile ''alpha-pant'' ''Alpha Pant Men's Compare'')"
  let ?B = "tileProduct ''https://outlet.example'' ''mens-pants''
      (exampleTile ''beta-jacket'' ''Beta Jacket Men's $100.00'')"
  let ?C = "tileProduct ''https://outlet.example'' ''mens-pants''
      (exampleTile ''gamma-pant'' ''Gamma Pant Men's $1.00 $3.00'')"
  have a: "tilePrices ''Alpha Pant Men's Compare'' = []"
    by (simp add: tile_eval)
  have b: "tilePrices ''Beta Jacket Men's $100.00'' = [Fin 100]"
    by (simp add: tile_eval fl_eval)
  have c: "tilePrices ''Gamma Pant Men's $1.00 $3.00'' = [Fin 3, Fin 1]"
    by (simp add: tile_eval fl_eval)
  have h1: "originalPrice ?A = Fin 0"
    by (simp add: tileProduct_def Let_def exampleTile_def indexOr_def a)
  have h2: "price ?B = Fin 100" "originalPrice ?B = Fin 100"
    by (simp_all add: tileProduct_def Let_def exampleTile_def indexOr_def truthy_def b)
  have h3: "price ?C = Fin 1" "originalPrice ?C = Fin 3"
    using tileProduct_two_prices[OF c] by (simp_all add: truthy_def)
  have q: "num_mul (num_div (num_sub (Fin 3) (Fin 1)) (Fin 3)) (Fin 100)
       = Fin (2345624805922133 / 35184372088832)"
    by (simp add: fl_eval)
  have lt: "num_lt (price ?C) (originalPrice ?C)" by (simp add: h3)
  have dA: "discount ?A = Fin 0"
    using tile_discount[of "''https://outlet.example''" "''mens-pants''"
        "exampleTile ''alpha-pant'' ''Alpha Pant Men's Compare''", unfolded Let_def,
        THEN conjunct1, THEN conjunct2, THEN conjunct2, THEN conjunct1] h1
    by (rule mp)
  have "price ?B = originalPrice ?B" by (simp only: h2)
  with tile_discount[of "''https://outlet.example''" "''mens-pants''"
        "exampleTile ''beta-jacket'' ''Beta Jacket Men's $100.00''", unfolded Let_def,
        THEN conjunct1, THEN conjunct2, THEN conjunct2, THEN conjunct2]
  have dB: "discount ?B = Fin 0"
    by (rule mp)
  have hq: "num_lt (price ?C) (originalPrice ?C)
      \<and> num_mul (num_div (num_sub (originalPrice ?C) (price ?C)) (originalPrice ?C)) (Fin 100)
          = Fin (2345624805922133 / 35184372088832)"
    using lt q by (simp only: h3 simp_thms)
  from tile_discount[of "''https://outlet.example''" "''mens-pants''"
        "exampleTile ''gamma-pant'' ''Gamma Pant Men's $1.00 $3.00''", unfolded Let_def,
        THEN conjunct1, THEN conjunct2, THEN conjunct1, rule_format, OF hq]
  obtain n :: int where n: "discount ?C = Fin (of_int n)"
      "2345624805922133 / 35184372088832 - 1 / 2 < rat_of_int n"
      "rat_of_int n \<le> 2345624805922133 / 35184372088832 + 1 / 2"
    by blast
  from n(2) have "(66::rat) < of_int n" by simp
  then have lo: "66 < n" by simp
  from n(3) have "rat_of_int n < 68" by simp
  then have hi: "n < 68" by simp
  from lo hi have "n = 67" by simp
  with n(1) have dC: "discount ?C = Fin 67" by simp
  from h1 dA h2 dB lt q dC show ?thesis by (intro conjI)
qed

text \<open>
  C7, counterexample to the claim as stated: a tile showing 143.00 and 200.00. The formula
  over exact numbers gives \<open>round(28.5) = 29\<close>; the code computes the quotient and the
  product in binary64, gets a value just below 28.5, and the discount is 28.
\<close>

theorem tile_discount_counterexample:
  "price (tileProduct ''https://outlet.example'' ''mens-pants''
      (exampleTile ''alpha-pant'' ''Alpha Pant Men's $143.00 $200.00'')) = Fin 143
   \<and> originalPrice (tileProduct ''https://outlet.example'' ''mens-pants''
      (exampleTile ''alpha-pant'' ''Alpha Pant Men's $143.00 $200.00'')) = Fin 200
   \<and> (200 - 143) / 200 * 100 = (57 / 2 :: rat)
   \<and> discountFormula 200 143 = 29
   \<and> discount (tileProduct ''https://outlet.example'' ''mens-pants''
      (exampleTile ''alpha-pant'' ''Alpha Pant Men's $143.00 $200.00'')) = Fin 28"
proof -
  have e: "tilePrices ''Alpha Pant Men's $143.00 $200.00'' = [Fin 200, Fin 143]"
    by (simp add: tile_eval fl_eval)
  have d: "discountOf (Fin 200) (Fin 143) = Fin 28"
    by (simp add: discountOf_def fl_eval)
  have f: "discountFormula 200 143 = 29"
    by (simp add: discountFormula_def round_def floor_rat_numeral_div)
  show ?thesis
    using tileProduct_two_prices[OF e, of "''https://outlet.example''" "''mens-pants''" "''alpha-pant''"] d f
    by (simp add: truthy_def)
qed




end
